theory Spec2Isabelle
  imports Main "HOL-Library.Word" "HOL-Library.Char_ord" "HOL-Library.List_Lexorder"
begin

section \<open>The dynamic value type of \<^verbatim>\<open>runtime/elem/Value.h\<close>\<close>

subsection \<open>Primitive payloads\<close>

text \<open>
  \<^verbatim>\<open>using Number = double\<close>. A double is a signed infinity, a signed NaN, or a finite
  value \<open>(-1)^s * m * 2^e\<close>. The type below holds every such value (every IEEE double is
  one of them, with \<open>m < 2^53\<close>), so a statement about all of its members covers all doubles.
  The elements of a \<^verbatim>\<open>Float32Array\<close> are floats; every float is one of these values too,
  and \<^verbatim>\<open>std::to_string(float)\<close> formats the float promoted to double.
\<close>

datatype double = Finite bool nat int | Infinity bool | NaN bool

type_synonym float = double

text \<open>
  \<^verbatim>\<open>using Function = std::function<Value(Array)>\<close>: an opaque host callable. Nothing in
  \<^verbatim>\<open>Value.h\<close> calls it or looks inside; it is modelled by a handle.
\<close>

datatype host_function = HostCallable nat

subsection \<open>Library text conversion used by \<^verbatim>\<open>toString\<close>\<close>

text \<open>
  \<^verbatim>\<open>std::to_string\<close> is the C++ standard library's (C++11 to C++23): for an \<^verbatim>\<open>int\<close> it is
  \<^verbatim>\<open>sprintf("%d")\<close>, for a \<^verbatim>\<open>double\<close> or \<^verbatim>\<open>float\<close> it is \<^verbatim>\<open>sprintf("%f")\<close>: an optional minus
  sign, the integer digits, a point and exactly six fraction digits, the exact binary value
  rounded to nearest with ties to even; infinities print as \<^verbatim>\<open>inf\<close> and NaNs as \<^verbatim>\<open>nan\<close>,
  with their sign.
\<close>

definition digit_char :: "nat \<Rightarrow> char" where
  "digit_char d = ''0123456789'' ! (d mod 10)"

fun dec :: "nat \<Rightarrow> string" where
  "dec n = (if n < 10 then [digit_char n] else dec (n div 10) @ [digit_char (n mod 10)])"

declare dec.simps [simp del]

definition to_string_int :: "int \<Rightarrow> string" where
  "to_string_int i = (if i < 0 then ''-'' @ dec (nat (- i)) else dec (nat i))"

definition scaled6 :: "nat \<Rightarrow> int \<Rightarrow> nat" where
  "scaled6 m e =
     (if 0 \<le> e then m * 2 ^ nat e * 1000000
      else let d = 2 ^ nat (- e); q = (m * 1000000) div d; r = (m * 1000000) mod d
           in if d < 2 * r \<or> (2 * r = d \<and> odd q) then q + 1 else q)"

definition pad6 :: "string \<Rightarrow> string" where
  "pad6 s = replicate (6 - length s) (CHR ''0'') @ s"

fun to_string :: "double \<Rightarrow> string" where
  "to_string (Finite s m e) =
     (if s then ''-'' else '''') @ dec (scaled6 m e div 1000000) @ ''.''
       @ pad6 (dec (scaled6 m e mod 1000000))"
| "to_string (Infinity s) = (if s then ''-inf'' else ''inf'')"
| "to_string (NaN s) = (if s then ''-nan'' else ''nan'')"

subsection \<open>The variant\<close>

text \<open>
  \<^verbatim>\<open>VarType = std::variant<Undefined, Null, Boolean, Number, String, Object, Array,
  Float32Array, Function>\<close>, in the source's order. \<^verbatim>\<open>Object = std::map<String, Value>\<close> is
  held as the sequence of its entries in iteration order (the in-order walk of the tree);
  \<open>map_insert\<close> below keeps that sequence strictly increasing by key, as the map does.
\<close>

datatype Value =
    Undefined
  | Null
  | Boolean bool
  | Number double
  | String string
  | Object "(string \<times> Value) list"
  | Array "Value list"
  | Float32Array "float list"
  | Function host_function

text \<open>
  \<^verbatim>\<open>std::get\<close> on the wrong alternative throws \<^verbatim>\<open>std::bad_variant_access\<close>;
  \<^verbatim>\<open>std::map::at\<close> on a missing key and \<^verbatim>\<open>std::string::substr\<close> with a start past the end
  throw \<^verbatim>\<open>std::out_of_range\<close>.
\<close>

datatype error = BadVariantAccess | OutOfRange

subsection \<open>Constructors\<close>

fun push_back_strings :: "string list \<Rightarrow> Value list \<Rightarrow> Value list" where
  "push_back_strings [] array = array"
| "push_back_strings (str # v) array = push_back_strings v (array @ [String str])"

definition Value_of_strings :: "string list \<Rightarrow> Value" where
  "Value_of_strings v = Array (push_back_strings v [])"

subsection \<open>Type checks\<close>

definition isUndefined :: "Value \<Rightarrow> bool" where
  "isUndefined v = (case v of Undefined \<Rightarrow> True | _ \<Rightarrow> False)"

definition isNull :: "Value \<Rightarrow> bool" where
  "isNull v = (case v of Null \<Rightarrow> True | _ \<Rightarrow> False)"

definition isBool :: "Value \<Rightarrow> bool" where
  "isBool v = (case v of Boolean _ \<Rightarrow> True | _ \<Rightarrow> False)"

definition isNumber :: "Value \<Rightarrow> bool" where
  "isNumber v = (case v of Number _ \<Rightarrow> True | _ \<Rightarrow> False)"

definition isString :: "Value \<Rightarrow> bool" where
  "isString v = (case v of String _ \<Rightarrow> True | _ \<Rightarrow> False)"

definition isArray :: "Value \<Rightarrow> bool" where
  "isArray v = (case v of Array _ \<Rightarrow> True | _ \<Rightarrow> False)"

definition isFloat32Array :: "Value \<Rightarrow> bool" where
  "isFloat32Array v = (case v of Float32Array _ \<Rightarrow> True | _ \<Rightarrow> False)"

definition isObject :: "Value \<Rightarrow> bool" where
  "isObject v = (case v of Object _ \<Rightarrow> True | _ \<Rightarrow> False)"

definition isFunction :: "Value \<Rightarrow> bool" where
  "isFunction v = (case v of Function _ \<Rightarrow> True | _ \<Rightarrow> False)"

subsection \<open>Primitive value casts and getters\<close>

text \<open>
  \<^verbatim>\<open>operator Boolean()\<close>, \<^verbatim>\<open>operator Number()\<close>, \<^verbatim>\<open>operator String()\<close> and
  \<^verbatim>\<open>operator Array()\<close>, each \<^verbatim>\<open>std::get<T>(var)\<close>.
\<close>

definition cast_Boolean :: "Value \<Rightarrow> error + bool" where
  "cast_Boolean v = (case v of Boolean b \<Rightarrow> Inr b | _ \<Rightarrow> Inl BadVariantAccess)"

definition cast_Number :: "Value \<Rightarrow> error + double" where
  "cast_Number v = (case v of Number n \<Rightarrow> Inr n | _ \<Rightarrow> Inl BadVariantAccess)"

definition cast_String :: "Value \<Rightarrow> error + string" where
  "cast_String v = (case v of String s \<Rightarrow> Inr s | _ \<Rightarrow> Inl BadVariantAccess)"

definition cast_Array :: "Value \<Rightarrow> error + Value list" where
  "cast_Array v = (case v of Array a \<Rightarrow> Inr a | _ \<Rightarrow> Inl BadVariantAccess)"

text \<open>The getters; the const and the mutable overload read the same alternative.\<close>

definition getArray :: "Value \<Rightarrow> error + Value list" where
  "getArray v = (case v of Array a \<Rightarrow> Inr a | _ \<Rightarrow> Inl BadVariantAccess)"

definition getFloat32Array :: "Value \<Rightarrow> error + float list" where
  "getFloat32Array v = (case v of Float32Array a \<Rightarrow> Inr a | _ \<Rightarrow> Inl BadVariantAccess)"

definition getObject :: "Value \<Rightarrow> error + (string \<times> Value) list" where
  "getObject v = (case v of Object obj \<Rightarrow> Inr obj | _ \<Rightarrow> Inl BadVariantAccess)"

definition getFunction :: "Value \<Rightarrow> error + host_function" where
  "getFunction v = (case v of Function f \<Rightarrow> Inr f | _ \<Rightarrow> Inl BadVariantAccess)"

definition getNumber :: "Value \<Rightarrow> error + double" where
  "getNumber v = (case v of Number n \<Rightarrow> Inr n | _ \<Rightarrow> Inl BadVariantAccess)"

subsection \<open>The operations of \<^verbatim>\<open>std::map\<close> that the source uses\<close>

definition map_count :: "(string \<times> 'v) list \<Rightarrow> string \<Rightarrow> nat" where
  "map_count m k = (case map_of m k of None \<Rightarrow> 0 | Some _ \<Rightarrow> 1)"

definition map_at :: "(string \<times> 'v) list \<Rightarrow> string \<Rightarrow> error + 'v" where
  "map_at m k = (case map_of m k of None \<Rightarrow> Inl OutOfRange | Some v \<Rightarrow> Inr v)"

text \<open>
  Insertion keeps the entries ordered by key and leaves the map unchanged when an
  equivalent key (neither less than the other) is already there.
\<close>

fun map_insert :: "string \<Rightarrow> 'v \<Rightarrow> (string \<times> 'v) list \<Rightarrow> (string \<times> 'v) list" where
  "map_insert k v [] = [(k, v)]"
| "map_insert k v ((k', v') # m) =
     (if k < k' then (k, v) # (k', v') # m
      else if k' < k then (k', v') # map_insert k v m
      else (k', v') # m)"

text \<open>
  The map built from a braced list of entries, as in
  \<^verbatim>\<open>elem::js::Object({{"type", type}, {"event", evt}})\<close>: the entries are inserted in the
  order written.
\<close>

fun map_insert_all :: "(string \<times> 'v) list \<Rightarrow> (string \<times> 'v) list \<Rightarrow> (string \<times> 'v) list" where
  "map_insert_all [] m = m"
| "map_insert_all (kv # kvs) m = map_insert_all kvs (map_insert (fst kv) (snd kv) m)"

definition map_of_entries :: "(string \<times> 'v) list \<Rightarrow> (string \<times> 'v) list" where
  "map_of_entries kvs = map_insert_all kvs []"

subsection \<open>Object property access with a default return value\<close>

text \<open>
  \<^verbatim>\<open>template <typename T> T getWithDefault(std::string const& k, T const& v)\<close>. The
  conversion \<^verbatim>\<open>T(o.at(k))\<close> is the parameter \<open>T\<close>: one of the four casts above for
  \<^verbatim>\<open>Boolean\<close>, \<^verbatim>\<open>Number\<close>, \<^verbatim>\<open>String\<close> and \<^verbatim>\<open>Array\<close>.
\<close>

definition getWithDefault ::
    "(Value \<Rightarrow> error + 't) \<Rightarrow> Value \<Rightarrow> string \<Rightarrow> 't \<Rightarrow> error + 't" where
  "getWithDefault T self k v =
     (case getObject self of
        Inl e \<Rightarrow> Inl e
      | Inr obj \<Rightarrow>
          if 0 < map_count obj k
          then (case map_at obj k of Inl e \<Rightarrow> Inl e | Inr x \<Rightarrow> T x)
          else Inr v)"

subsection \<open>String representation\<close>

text \<open>
  \<^verbatim>\<open>s.substr(pos, count)\<close>: throws when \<open>pos\<close> is past the end, otherwise the
  \<open>min count (size - pos)\<close> characters from \<open>pos\<close>. \<open>count\<close> is a \<^verbatim>\<open>size_t\<close>.
\<close>

definition substr :: "string \<Rightarrow> nat \<Rightarrow> 64 word \<Rightarrow> error + string" where
  "substr s pos n =
     (if length s < pos then Inl OutOfRange
      else Inr (take (min (unat n) (length s - pos)) (drop pos s)))"

text \<open>\<^verbatim>\<open>s.size()\<close> as a \<^verbatim>\<open>size_t\<close>.\<close>

definition size_t_of :: "string \<Rightarrow> 64 word" where
  "size_t_of s = word_of_nat (length s)"

text \<open>
  The two preview loops, \<^verbatim>\<open>ss << arg[i].toString() << ", "\<close> and
  \<^verbatim>\<open>ss << std::to_string(arg[i]) << ", "\<close>, over the rendered elements; an element whose
  rendering throws ends the loop with that error.
\<close>

fun stream_elems :: "(error + string) list \<Rightarrow> string \<Rightarrow> error + string" where
  "stream_elems [] ss = Inr ss"
| "stream_elems (r # rs) ss =
     (case r of Inl e \<Rightarrow> Inl e | Inr s \<Rightarrow> stream_elems rs (ss @ s @ '', ''))"

text \<open>
  The object loop, \<^verbatim>\<open>ss << "    " << k << ": " << v.toString() << "\n"\<close>, over the
  entries in the map's iteration order.
\<close>

fun stream_fields :: "(string \<times> (error + string)) list \<Rightarrow> string \<Rightarrow> error + string" where
  "stream_fields [] ss = Inr ss"
| "stream_fields (kr # rs) ss =
     (case snd kr of
        Inl e \<Rightarrow> Inl e
      | Inr s \<Rightarrow> stream_fields rs (ss @ ''    '' @ fst kr @ '': '' @ s @ ''\<newline>''))"

text \<open>
  \<^verbatim>\<open>toString\<close>, one equation for each branch of the visitor, in the visitor's order. Its
  last \<^verbatim>\<open>else\<close> branch ("unknown type") is taken by no alternative of the variant. The index
  loops run over \<open>i < min 3 (size arg)\<close>, that is over the first \<open>min 3 (size arg)\<close>
  elements in order.
\<close>

function toString :: "Value \<Rightarrow> error + string" where
  "toString Undefined = Inr ''undefined''"
| "toString Null = Inr ''null''"
| "toString (Boolean arg) = Inr (to_string_int (if arg then 1 else 0))"
| "toString (Number arg) = Inr (to_string arg)"
| "toString (String arg) = Inr arg"
| "toString (Array arg) =
     (case stream_elems (map toString (take (min 3 (length arg)) arg)) ''['' of
        Inl e \<Rightarrow> Inl e
      | Inr ss \<Rightarrow>
          if 3 < length arg then Inr (ss @ ''...]'')
          else (case substr ss 0 (size_t_of ss - 2) of
                  Inl e \<Rightarrow> Inl e
                | Inr s \<Rightarrow> Inr (s @ '']'')))"
| "toString (Float32Array arg) =
     (case stream_elems (map (\<lambda>x. Inr (to_string x)) (take (min 3 (length arg)) arg)) ''['' of
        Inl e \<Rightarrow> Inl e
      | Inr ss \<Rightarrow>
          if 3 < length arg then Inr (ss @ ''...]'')
          else (case substr ss 0 (size_t_of ss - 2) of
                  Inl e \<Rightarrow> Inl e
                | Inr s \<Rightarrow> Inr (s @ '']'')))"
| "toString (Object arg) =
     (case stream_fields (map (\<lambda>kv. (fst kv, toString (snd kv))) arg) ''{\<newline>'' of
        Inl e \<Rightarrow> Inl e
      | Inr ss \<Rightarrow> Inr (ss @ ''}\<newline>''))"
| "toString (Function arg) = Inr ''[Object Function]''"
  by pat_completeness auto
termination
proof (relation "measure size")
  show "wf (measure size)" by simp
next
  fix arg :: "Value list" and x
  assume "x \<in> set (take (min 3 (length arg)) arg)"
  then have "x \<in> set arg" by (rule in_set_takeD)
  then have "size x \<le> size_list size arg" by (simp add: size_list_estimation')
  then show "(x, Array arg) \<in> measure size" by simp
next
  fix arg :: "(string \<times> Value) list" and kv
  assume "kv \<in> set arg"
  then have "size_prod (\<lambda>_. 0) size kv \<le> size_list (size_prod (\<lambda>_. 0) size) arg"
    by (simp add: size_list_estimation')
  then show "(snd kv, Object arg) \<in> measure size" by (cases kv) simp
qed

subsection \<open>The vector of strings of an array\<close>

text \<open>The loop \<^verbatim>\<open>array_of_strings.push_back(e.toString())\<close> over the elements.\<close>

fun push_back_rendered :: "Value list \<Rightarrow> string list \<Rightarrow> error + string list" where
  "push_back_rendered [] array_of_strings = Inr array_of_strings"
| "push_back_rendered (e # a) array_of_strings =
     (case toString e of
        Inl err \<Rightarrow> Inl err
      | Inr s \<Rightarrow> push_back_rendered a (array_of_strings @ [s]))"

definition toStringVector :: "Value \<Rightarrow> error + string list" where
  "toStringVector self =
     (if isArray self
      then (case getArray self of Inl e \<Rightarrow> Inl e | Inr a \<Rightarrow> push_back_rendered a [])
      else Inr [])"

subsection \<open>Joining with a separator\<close>

text \<open>
  The specification's "joined with a separator": the separator stands between
  neighbours only, so there is none after the last element. This is a second definition,
  from the specification's words, against which the loop of \<open>toString\<close> is compared.
\<close>

fun join :: "string \<Rightarrow> string list \<Rightarrow> string" where
  "join sep [] = []"
| "join sep [x] = x"
| "join sep (x # y # ys) = x @ sep @ join sep (y # ys)"

section \<open>Properties\<close>

subsection \<open>Loops that meet no error\<close>

lemmas is_defs = isUndefined_def isNull_def isBool_def isNumber_def isString_def isArray_def
  isFloat32Array_def isObject_def isFunction_def

lemma stream_elems_Inr:
  "stream_elems (map Inr es) ss = Inr (ss @ concat (map (\<lambda>s. s @ '', '') es))"
  by (induction es arbitrary: ss) simp_all

lemma stream_elems_Inr_map:
  "stream_elems (map (\<lambda>x. Inr (f x)) xs) ss = Inr (ss @ concat (map (\<lambda>x. f x @ '', '') xs))"
  by (induction xs arbitrary: ss) simp_all

lemma stream_fields_Inr:
  "stream_fields (map (\<lambda>ks. (fst ks, Inr (snd ks))) kss) ss =
     Inr (ss @ concat (map (\<lambda>ks. ''    '' @ fst ks @ '': '' @ snd ks @ ''\<newline>'') kss))"
  by (induction kss arbitrary: ss) simp_all

lemma all_Inr_map:
  "(\<And>x. x \<in> set xs \<Longrightarrow> \<exists>s. f x = Inr s) \<Longrightarrow> \<exists>es. map f xs = map Inr es"
proof (induction xs)
  case Nil
  then show ?case by simp
next
  case (Cons x xs)
  from Cons.prems obtain s where s: "f x = Inr s" by auto
  from Cons.IH Cons.prems obtain es where es: "map f xs = map Inr es" by auto
  from s es have "map f (x # xs) = map Inr (s # es)" by simp
  then show ?case by blast
qed

lemma substr_zero: "substr ss 0 n = Inr (take (min (unat n) (length ss)) ss)"
  by (simp add: substr_def)

lemma fields_as_zip:
  "map (\<lambda>kv. toString (snd kv)) arg = map Inr es \<Longrightarrow>
   map (\<lambda>kv. (fst kv, toString (snd kv))) arg
     = map (\<lambda>ks. (fst ks, Inr (snd ks))) (zip (map fst arg) es)"
  by (induction arg arbitrary: es) auto

lemma toString_returns: "\<exists>s. toString v = Inr s"
proof (induction v)
  case (Array arg)
  have "\<And>x. x \<in> set (take (min 3 (length arg)) arg) \<Longrightarrow> \<exists>s. toString x = Inr s"
    using Array by (blast dest: in_set_takeD)
  then obtain es where "map toString (take (min 3 (length arg)) arg) = map Inr es"
    using all_Inr_map by blast
  then show ?case by (simp add: stream_elems_Inr substr_zero)
next
  case (Float32Array arg)
  show ?case by (simp add: stream_elems_Inr_map substr_zero)
next
  case (Object arg)
  have "\<And>kv. kv \<in> set arg \<Longrightarrow> \<exists>s. toString (snd kv) = Inr s"
  proof -
    fix kv assume "kv \<in> set arg"
    moreover have "snd kv \<in> Basic_BNFs.snds kv" by (cases kv) (simp add: snds.simps)
    ultimately show "\<exists>s. toString (snd kv) = Inr s" using Object by blast
  qed
  then obtain es where es: "map (\<lambda>kv. toString (snd kv)) arg = map Inr es"
    using all_Inr_map[of arg "\<lambda>kv. toString (snd kv)"] by blast
  show ?case by (simp add: fields_as_zip[OF es] stream_fields_Inr)
qed simp_all

lemma all_toString_Inr: "\<exists>es. map toString a = map Inr es"
  using all_Inr_map[of a toString] toString_returns by blast

subsection \<open>Type checks\<close>

text \<open>
  Claim C3. For every Value, whichever alternative it holds, exactly one of the nine
  type checks \<open>isUndefined\<close>, \<open>isNull\<close>, \<open>isBool\<close>, \<open>isNumber\<close>, \<open>isString\<close>,
  \<open>isArray\<close>, \<open>isFloat32Array\<close>, \<open>isObject\<close>, \<open>isFunction\<close> is true: among the nine
  answers, the number of \<open>True\<close> is one.
\<close>

theorem type_checks_exactly_one:
  "length (filter id [isUndefined v, isNull v, isBool v, isNumber v, isString v, isArray v,
     isFloat32Array v, isObject v, isFunction v]) = 1"
  by (cases v) (simp_all add: is_defs)

subsection \<open>Wrong-variant access\<close>

text \<open>
  Claim C7. For every Value whose active alternative is not the one asked for, each of
  the getters \<open>getArray\<close>, \<open>getFloat32Array\<close>, \<open>getObject\<close>, \<open>getFunction\<close>,
  \<open>getNumber\<close> and each of the casts to Boolean, Number, String and Array fails with
  \<open>BadVariantAccess\<close>; none returns a default or coerces.
\<close>

theorem wrong_variant_fails:
  "(\<not> isArray v \<longrightarrow> getArray v = Inl BadVariantAccess) \<and>
   (\<not> isFloat32Array v \<longrightarrow> getFloat32Array v = Inl BadVariantAccess) \<and>
   (\<not> isObject v \<longrightarrow> getObject v = Inl BadVariantAccess) \<and>
   (\<not> isFunction v \<longrightarrow> getFunction v = Inl BadVariantAccess) \<and>
   (\<not> isNumber v \<longrightarrow> getNumber v = Inl BadVariantAccess) \<and>
   (\<not> isBool v \<longrightarrow> cast_Boolean v = Inl BadVariantAccess) \<and>
   (\<not> isNumber v \<longrightarrow> cast_Number v = Inl BadVariantAccess) \<and>
   (\<not> isString v \<longrightarrow> cast_String v = Inl BadVariantAccess) \<and>
   (\<not> isArray v \<longrightarrow> cast_Array v = Inl BadVariantAccess)"
  by (cases v) (simp_all add: is_defs getArray_def getFloat32Array_def getObject_def
      getFunction_def getNumber_def cast_Boolean_def cast_Number_def cast_String_def cast_Array_def)

theorem wrong_variant_fails_witness:
  "\<not> isArray Null \<and> \<not> isFloat32Array Null \<and> \<not> isObject Null \<and> \<not> isFunction Null \<and>
   \<not> isNumber Null \<and> \<not> isBool Null \<and> \<not> isString Null \<and>
   getArray Null = Inl BadVariantAccess \<and> getFloat32Array Null = Inl BadVariantAccess \<and>
   getObject Null = Inl BadVariantAccess \<and> getFunction Null = Inl BadVariantAccess \<and>
   getNumber Null = Inl BadVariantAccess \<and> cast_Boolean Null = Inl BadVariantAccess \<and>
   cast_Number Null = Inl BadVariantAccess \<and> cast_String Null = Inl BadVariantAccess \<and>
   cast_Array Null = Inl BadVariantAccess"
  using wrong_variant_fails [of Null] by (simp add: is_defs)

subsection \<open>Rendering never fails\<close>

text \<open>
  Claim C8. For every Value of every alternative, a Number that is a NaN or an infinity
  included, \<open>toString\<close> returns a string: no branch of it ends in an error.
\<close>

theorem toString_total: "\<exists>s. toString v = Inr s"
  by (rule toString_returns)

subsection \<open>Array previews\<close>

lemma concat_sep_join:
  "es \<noteq> [] \<Longrightarrow> concat (map (\<lambda>s. s @ sep) es) = join sep es @ sep"
  by (induction sep es rule: join.induct) simp_all

lemma length_concat_sep:
  "length (concat (map (\<lambda>s. s @ '', '') es)) = length (concat es) + 2 * length es"
  by (induction es) simp_all

text \<open>
  \<^verbatim>\<open>s.size() - 2\<close> is computed in \<^verbatim>\<open>size_t\<close>: below two it wraps around to a count larger
  than the string, and \<^verbatim>\<open>substr\<close> then returns the whole string.
\<close>

lemma unat_size_minus_two:
  assumes "n < 2 ^ 64"
  shows "unat (word_of_nat n - 2 :: 64 word) = (if 2 \<le> n then n - 2 else n + 2 ^ 64 - 2)"
  using assms by (simp add: unat_sub_if_size unat_of_nat word_size)

lemma substr_chop:
  assumes "length ss < 2 ^ 64"
  shows "substr ss 0 (size_t_of ss - 2) =
           Inr (if 2 \<le> length ss then take (length ss - 2) ss else ss)"
  using assms by (simp add: substr_zero size_t_of_def unat_size_minus_two)

lemma take3:
  assumes "3 < length a"
  shows "take (min 3 (length a)) a = [a ! 0, a ! 1, a ! 2]"
proof -
  from assms obtain x y z r where "a = x # y # z # r"
    by (cases a; cases "tl a"; cases "tl (tl a)") auto
  then show ?thesis by (simp add: eval_nat_numeral)
qed

lemma take3_plain:
  assumes "3 < length a"
  shows "take 3 a = [a ! 0, a ! 1, a ! 2]"
  using take3[OF assms] assms by simp

lemma dec_small: "n < 10 \<Longrightarrow> dec n = [digit_char n]"
  by (simp add: dec.simps)

lemma replicate_zeros: "replicate 5 c = [c, c, c, c, c]"
  by (simp add: eval_nat_numeral)

lemma to_string_small_integer:
  "n < 10 \<Longrightarrow> to_string (Finite False n 0) = [digit_char n] @ ''.000000''"
  by (simp add: scaled6_def dec_small pad6_def replicate_zeros digit_char_def)

text \<open>
  Claim C1, as the source has it. For every Array or Float32Array of more than three
  elements, \<open>toString\<close> renders the first three elements only, each followed by the
  separator \<open>", "\<close>, and then appends the marker \<open>"...]"\<close> directly after the third
  separator: the result is \<open>[e0, e1, e2, ...]\<close>, and the marker carries the closing bracket.
\<close>

theorem overflow_preview:
  "(3 < length a \<longrightarrow>
      (\<exists>e0 e1 e2. toString (a ! 0) = Inr e0 \<and> toString (a ! 1) = Inr e1 \<and>
         toString (a ! 2) = Inr e2 \<and>
         toString (Array a) = Inr (''['' @ e0 @ '', '' @ e1 @ '', '' @ e2 @ '', '' @ ''...]''))) \<and>
   (3 < length f \<longrightarrow>
      toString (Float32Array f) =
        Inr (''['' @ to_string (f ! 0) @ '', '' @ to_string (f ! 1) @ '', ''
               @ to_string (f ! 2) @ '', '' @ ''...]''))"
proof (intro conjI impI)
  assume len: "3 < length a"
  obtain e0 where e0: "toString (a ! 0) = Inr e0" using toString_returns by blast
  obtain e1 where e1: "toString (a ! 1) = Inr e1" using toString_returns by blast
  obtain e2 where e2: "toString (a ! 2) = Inr e2" using toString_returns by blast
  have "toString (Array a) = Inr (''['' @ e0 @ '', '' @ e1 @ '', '' @ e2 @ '', '' @ ''...]'')"
    using len e0 e1 e2 by (simp add: take3_plain)
  with e0 e1 e2 show "\<exists>e0 e1 e2. toString (a ! 0) = Inr e0 \<and> toString (a ! 1) = Inr e1 \<and>
         toString (a ! 2) = Inr e2 \<and>
         toString (Array a) = Inr (''['' @ e0 @ '', '' @ e1 @ '', '' @ e2 @ '', '' @ ''...]'')"
    by blast
next
  assume len: "3 < length f"
  then show "toString (Float32Array f) =
        Inr (''['' @ to_string (f ! 0) @ '', '' @ to_string (f ! 1) @ '', ''
               @ to_string (f ! 2) @ '', '' @ ''...]'')"
    by (simp add: take3_plain)
qed

text \<open>The preview of five strings, and of four floats none of which is finite.\<close>

theorem overflow_preview_witness:
  "toString (Array [String ''a'', String ''b'', String ''c'', String ''d'', String ''e''])
     = Inr ''[a, b, c, ...]'' \<and>
   toString (Float32Array [NaN False, Infinity True, Infinity False, NaN True])
     = Inr ''[nan, -inf, inf, ...]''"
  using overflow_preview [of "[String ''a'', String ''b'', String ''c'', String ''d'', String ''e'']"
      "[NaN False, Infinity True, Infinity False, NaN True]"]
  by simp

text \<open>
  Claim C1 as it is written asks for \<open>[e0, e1, e2, ...\<close> with no closing bracket. An
  Array of four nulls renders with the bracket, not without it.
\<close>

theorem overflow_preview_counterexample:
  "toString (Array [Null, Null, Null, Null]) = Inr ''[null, null, null, ...]'' \<and>
   toString (Array [Null, Null, Null, Null]) \<noteq> Inr ''[null, null, null, ...''"
  by simp

text \<open>
  Claim C2, as the source has it. For every Array of three or fewer elements whose
  rendered elements fit a \<^verbatim>\<open>size_t\<close> (together with the brackets and separators: their
  total size plus seven is below \<open>2^64\<close>, as the size of any \<^verbatim>\<open>std::string\<close> is),
  \<open>toString\<close> renders exactly the elements of the array, joined with \<open>", "\<close> and wrapped in
  square brackets, with the closing bracket and no trailing separator. The empty Array is
  included: it renders as \<open>[]\<close>.
\<close>

theorem small_preview:
  "length a \<le> 3 \<Longrightarrow>
   \<exists>es. map toString a = map Inr es \<and>
     (length (concat es) + 7 < 2 ^ 64 \<longrightarrow>
        toString (Array a) = Inr (''['' @ join '', '' es @ '']''))"
proof -
  assume len: "length a \<le> 3"
  obtain es where es: "map toString a = map Inr es" using all_toString_Inr by blast
  then have les: "length es = length a" by (metis length_map)
  have tk: "take (min 3 (length a)) a = a" using len by simp
  let ?ss = "''['' @ concat (map (\<lambda>s. s @ '', '') es)"
  have run: "stream_elems (map toString (take (min 3 (length a)) a)) ''['' = Inr ?ss"
    by (simp only: tk es stream_elems_Inr)
  have "toString (Array a) = Inr (''['' @ join '', '' es @ '']'')"
    if bound: "length (concat es) + 7 < 2 ^ 64"
  proof -
    have small: "length ?ss < 2 ^ 64"
      using bound les len by (simp add: length_concat_sep)
    have chop: "substr ?ss 0 (size_t_of ?ss - 2) =
           Inr (if 2 \<le> length ?ss then take (length ?ss - 2) ?ss else ?ss)"
      using small by (rule substr_chop)
    show ?thesis
    proof (cases "es = []")
      case True
      then show ?thesis
        using len run chop by simp
    next
      case False
      then have "?ss = (''['' @ join '', '' es) @ '', ''"
        by (simp add: concat_sep_join)
      then have "take (length ?ss - 2) ?ss = ''['' @ join '', '' es" and "2 \<le> length ?ss"
        by simp_all
      then show ?thesis
        using len run chop by simp
    qed
  qed
  with es show ?thesis by blast
qed

text \<open>The empty Array, an Array of two strings, and the Array of the strings 1, 2, 3.\<close>

theorem small_preview_witness:
  "toString (Array []) = Inr ''[]'' \<and>
   toString (Array [String ''a'', String ''b'']) = Inr ''[a, b]'' \<and>
   toString (Array [String ''1'', String ''2'', String ''3'']) = Inr ''[1, 2, 3]''"
proof -
  have "toString (Array []) = Inr ''[]''"
    using small_preview [of "[]"] by auto
  moreover have "toString (Array [String ''a'', String ''b'']) = Inr ''[a, b]''"
    using small_preview [of "[String ''a'', String ''b'']"] by (auto simp: Cons_eq_map_conv)
  moreover have "toString (Array [String ''1'', String ''2'', String ''3'']) = Inr ''[1, 2, 3]''"
    using small_preview [of "[String ''1'', String ''2'', String ''3'']"]
    by (auto simp: Cons_eq_map_conv)
  ultimately show ?thesis by simp
qed

text \<open>
  Claim C2 as it is written says that the Array \<open>[1, 2, 3]\<close> renders as \<open>[1, 2, 3]\<close>. The
  Array of the Numbers 1, 2 and 3 renders each Number through \<^verbatim>\<open>std::to_string\<close>, with six
  fraction digits.
\<close>

theorem small_preview_counterexample:
  "toString (Array [Number (Finite False 1 0), Number (Finite False 2 0), Number (Finite False 3 0)])
     = Inr ''[1.000000, 2.000000, 3.000000]'' \<and>
   toString (Array [Number (Finite False 1 0), Number (Finite False 2 0), Number (Finite False 3 0)])
     \<noteq> Inr ''[1, 2, 3]''"
  by (simp add: to_string_small_integer digit_char_def substr_chop
      del: to_string.simps)

subsection \<open>Object property access with a default\<close>

text \<open>
  Claim C4. For every Object \<open>obj\<close>, key \<open>k\<close> and default \<open>d\<close>: when \<open>k\<close> is present,
  \<open>getWithDefault\<close> returns the stored value converted to the expected type by the cast
  \<open>T\<close> (for the cast to Number: the stored number when the value is a Number, and the
  failure \<open>BadVariantAccess\<close> when it is not); when \<open>k\<close> is absent it returns \<open>d\<close>
  unchanged, without failure.
\<close>

theorem getWithDefault_spec:
  "(map_of obj k = Some x \<longrightarrow> getWithDefault T (Object obj) k d = T x) \<and>
   (map_of obj k = None \<longrightarrow> getWithDefault T (Object obj) k d = Inr d) \<and>
   (map_of obj k = Some (Number n) \<longrightarrow>
      getWithDefault cast_Number (Object obj) k dn = Inr n) \<and>
   (map_of obj k = Some x \<and> \<not> isNumber x \<longrightarrow>
      getWithDefault cast_Number (Object obj) k dn = Inl BadVariantAccess)"
  by (cases x) (simp_all add: getWithDefault_def getObject_def map_count_def map_at_def
      cast_Number_def isNumber_def)

text \<open>
  An Object with \<open>"x": 42.0\<close> and default \<open>5.0\<close> gives \<open>42.0\<close>; an Object without
  \<open>"x"\<close> gives \<open>5.0\<close>; an Object whose \<open>"x"\<close> is a String fails.
\<close>

theorem getWithDefault_spec_witness:
  "getWithDefault cast_Number (Object [(''x'', Number (Finite False 42 0))]) ''x''
      (Finite False 5 0) = Inr (Finite False 42 0) \<and>
   getWithDefault cast_Number (Object []) ''x'' (Finite False 5 0) = Inr (Finite False 5 0) \<and>
   getWithDefault cast_Number (Object [(''x'', String ''on'')]) ''x'' (Finite False 5 0)
      = Inl BadVariantAccess"
  using getWithDefault_spec [of "[(''x'', Number (Finite False 42 0))]" "''x''"
      "Number (Finite False 42 0)" cast_Number "Finite False 5 0" "Finite False 42 0"
      "Finite False 5 0"]
    getWithDefault_spec [of "[]" "''x''" Null cast_Number "Finite False 5 0" "Finite False 42 0"
      "Finite False 5 0"]
    getWithDefault_spec [of "[(''x'', String ''on'')]" "''x''" "String ''on''" cast_Number
      "Finite False 5 0" "Finite False 42 0" "Finite False 5 0"]
  by (simp add: isNumber_def cast_Number_def)

subsection \<open>The vector of strings\<close>

lemma push_back_strings_eq: "push_back_strings v array = array @ map String v"
  by (induction v arbitrary: array) simp_all

lemma push_back_rendered_Inr:
  "map toString a = map Inr ss \<Longrightarrow> push_back_rendered a acc = Inr (acc @ ss)"
  by (induction a arbitrary: acc ss) auto

text \<open>
  Claim C5. For every Value \<open>v\<close>: when \<open>v\<close> is an Array, \<open>toStringVector\<close> returns the
  renderings by \<open>toString\<close> of its elements, in index order; when \<open>v\<close> is not an Array, it
  returns the empty sequence, and does not fail.
\<close>

theorem toStringVector_spec:
  "(\<forall>a. v = Array a \<longrightarrow>
      (\<exists>ss. toStringVector v = Inr ss \<and> map toString a = map Inr ss)) \<and>
   (\<not> isArray v \<longrightarrow> toStringVector v = Inr [])"
proof (intro conjI allI impI)
  fix a assume v: "v = Array a"
  obtain ss where ss: "map toString a = map Inr ss" using all_toString_Inr by blast
  then have "push_back_rendered a [] = Inr ([] @ ss)" by (rule push_back_rendered_Inr)
  then have "toStringVector v = Inr ss"
    by (simp add: v toStringVector_def isArray_def getArray_def)
  with ss show "\<exists>ss. toStringVector v = Inr ss \<and> map toString a = map Inr ss" by blast
next
  assume "\<not> isArray v"
  then show "toStringVector v = Inr []" by (simp add: toStringVector_def)
qed

theorem toStringVector_spec_witness:
  "toStringVector (Array [String ''a'', String ''b'']) = Inr [''a'', ''b''] \<and>
   toStringVector (Number (Finite False 1 0)) = Inr []"
proof -
  have "\<exists>ss. toStringVector (Array [String ''a'', String ''b'']) = Inr ss \<and>
          map toString [String ''a'', String ''b''] = map Inr ss"
    using toStringVector_spec [of "Array [String ''a'', String ''b'']"] by blast
  moreover have "toStringVector (Number (Finite False 1 0)) = Inr []"
    using toStringVector_spec [of "Number (Finite False 1 0)"] by (simp add: isArray_def)
  ultimately show ?thesis by auto
qed

text \<open>
  Claim C10. Round trip: for every list of strings \<open>v\<close>, the Value built from \<open>v\<close> by
  the constructor for a vector of strings gives back exactly \<open>v\<close>, the same strings in the
  same order, through \<open>toStringVector\<close>.
\<close>

theorem strings_round_trip: "toStringVector (Value_of_strings v) = Inr v"
proof -
  have "map toString (map String v) = map Inr v" by simp
  then have "push_back_rendered (map String v) [] = Inr ([] @ v)"
    by (rule push_back_rendered_Inr)
  then show ?thesis
    by (simp add: toStringVector_def Value_of_strings_def push_back_strings_eq isArray_def
        getArray_def)
qed

subsection \<open>Objects render in key order\<close>

lemma set_map_insert: "fst ` set (map_insert k v m) = insert k (fst ` set m)"
proof (induction m)
  case Nil
  then show ?case by simp
next
  case (Cons kv m)
  obtain k' v' where kv: "kv = (k', v')" by (cases kv)
  consider "k < k'" | "k' < k" | "k = k'" by (rule linorder_cases)
  then show ?case
  proof cases
    case 1
    then show ?thesis by (simp add: kv)
  next
    case 2
    then show ?thesis using Cons.IH by (simp add: kv insert_commute)
  next
    case 3
    then show ?thesis by (simp add: kv)
  qed
qed

lemma sorted_map_insert:
  "sorted_wrt (<) (map fst m) \<Longrightarrow> sorted_wrt (<) (map fst (map_insert k v m))"
proof (induction m)
  case Nil
  then show ?case by simp
next
  case (Cons kv m)
  obtain k' v' where kv: "kv = (k', v')" by (cases kv)
  show ?case
  proof (cases "k < k'")
    case True
    then show ?thesis using Cons.prems kv by auto
  next
    case False
    show ?thesis
    proof (cases "k' < k")
      case True
      have "\<forall>x \<in> fst ` set (map_insert k v m). k' < x"
        using Cons.prems kv True by (auto simp: set_map_insert)
      then show ?thesis using Cons kv True False by auto
    next
      case F: False
      then show ?thesis using Cons.prems kv False by simp
    qed
  qed
qed

lemma map_of_map_insert:
  "sorted_wrt (<) (map fst m) \<Longrightarrow>
   map_of (map_insert k v m) k' =
     (case map_of m k' of Some x \<Rightarrow> Some x | None \<Rightarrow> if k' = k then Some v else None)"
proof (induction m)
  case Nil
  then show ?case by simp
next
  case (Cons kv m)
  obtain k0 v0 where kv: "kv = (k0, v0)" by (cases kv)
  have notin: "k < k0 \<Longrightarrow> map_of m k = None"
    using Cons.prems kv by (force simp: map_of_eq_None_iff)
  show ?case
    using Cons kv notin by (auto split: option.splits)
qed

lemma sorted_map_insert_all:
  "sorted_wrt (<) (map fst m) \<Longrightarrow> sorted_wrt (<) (map fst (map_insert_all kvs m))"
  by (induction kvs arbitrary: m) (simp_all add: sorted_map_insert)

lemma set_map_insert_all:
  "fst ` set (map_insert_all kvs m) = fst ` set kvs \<union> fst ` set m"
  by (induction kvs arbitrary: m) (auto simp: set_map_insert)

lemma map_of_map_insert_all:
  "sorted_wrt (<) (map fst m) \<Longrightarrow>
   map_of (map_insert_all kvs m) k =
     (case map_of m k of Some x \<Rightarrow> Some x | None \<Rightarrow> map_of kvs k)"
proof (induction kvs arbitrary: m)
  case Nil
  then show ?case by (simp split: option.splits)
next
  case (Cons kv kvs)
  show ?case
    using Cons.IH[OF sorted_map_insert[OF Cons.prems]] Cons.prems
    by (cases kv) (auto simp: map_of_map_insert split: option.splits)
qed

lemma keys_map_of_entries:
  "map fst (map_of_entries kvs) = sorted_list_of_set (fst ` set kvs)"
proof -
  have s: "sorted_wrt (<) (map fst (map_of_entries kvs))"
    unfolding map_of_entries_def by (rule sorted_map_insert_all) simp
  have "set (map fst (map_of_entries kvs)) = fst ` set kvs"
    using set_map_insert_all[of kvs "[]"] by (simp add: map_of_entries_def)
  with s show ?thesis
    by (metis sorted_list_of_set.idem_if_sorted_distinct strict_sorted_iff)
qed

lemma map_of_map_of_entries: "map_of (map_of_entries kvs) = map_of kvs"
  by (rule ext) (simp add: map_of_entries_def map_of_map_insert_all)

text \<open>
  Every map is the map built from its own entries: a sequence of entries strictly
  increasing by key is left as it is by \<open>map_of_entries\<close>. So a statement about
  \<open>Object (map_of_entries kvs)\<close> for all \<open>kvs\<close> is one about every Object.
\<close>

lemma map_insert_last:
  "sorted_wrt (<) (map fst (acc @ [(k, v)])) \<Longrightarrow> map_insert k v acc = acc @ [(k, v)]"
  by (induction acc) (auto simp: sorted_wrt_append)

lemma map_insert_all_sorted:
  "sorted_wrt (<) (map fst (acc @ m)) \<Longrightarrow> map_insert_all m acc = acc @ m"
proof (induction m arbitrary: acc)
  case Nil
  then show ?case by simp
next
  case (Cons kv m)
  obtain k v where kv: "kv = (k, v)" by (cases kv)
  have pre: "sorted_wrt (<) (map fst (acc @ [(k, v)]))"
    using Cons.prems kv by (simp add: sorted_wrt_append)
  have "sorted_wrt (<) (map fst ((acc @ [(k, v)]) @ m))"
    using Cons.prems kv by simp
  from Cons.IH[OF this] show ?case
    by (simp add: kv map_insert_last[OF pre])
qed

lemma every_map_is_built:
  "sorted_wrt (<) (map fst m) \<Longrightarrow> map_of_entries m = m"
  using map_insert_all_sorted[of "[]" m] by (simp add: map_of_entries_def)

text \<open>
  Claim C6. For every Object, built from its entries \<open>kvs\<close> in whatever order they are
  inserted, \<open>toString\<close> produces the block: an opening brace and a newline, then for each
  key one line of four spaces, the key, a colon and a space, the rendering of that key's
  value and a newline, then a closing brace and a newline. The keys of the lines are the
  keys of \<open>kvs\<close> in increasing lexicographic order, each once, whatever the order of
  \<open>kvs\<close>, and each key keeps its value.
\<close>

theorem object_rendering:
  "\<exists>rs. map (\<lambda>kv. toString (snd kv)) (map_of_entries kvs) = map Inr rs \<and>
     map fst (map_of_entries kvs) = sorted_list_of_set (fst ` set kvs) \<and>
     map_of (map_of_entries kvs) = map_of kvs \<and>
     toString (Object (map_of_entries kvs)) =
       Inr (''{\<newline>''
            @ concat (map (\<lambda>kr. ''    '' @ fst kr @ '': '' @ snd kr @ ''\<newline>'')
                (zip (map fst (map_of_entries kvs)) rs))
            @ ''}\<newline>'')"
proof -
  obtain rs where rs: "map (\<lambda>kv. toString (snd kv)) (map_of_entries kvs) = map Inr rs"
    using all_Inr_map[of "map_of_entries kvs" "\<lambda>kv. toString (snd kv)"] toString_returns
    by blast
  have "toString (Object (map_of_entries kvs)) =
       Inr (''{\<newline>''
            @ concat (map (\<lambda>kr. ''    '' @ fst kr @ '': '' @ snd kr @ ''\<newline>'')
                (zip (map fst (map_of_entries kvs)) rs))
            @ ''}\<newline>'')"
    by (simp add: fields_as_zip[OF rs] stream_fields_Inr)
  with rs keys_map_of_entries map_of_map_of_entries show ?thesis by blast
qed

text \<open>
  The Object \<open>{"b": 2, "a": 1}\<close> and the Object \<open>{"a": 1, "b": 2}\<close> render alike, with
  \<open>a\<close> before \<open>b\<close>.
\<close>

theorem object_rendering_witness:
  "toString (Object (map_of_entries
      [(''b'', Number (Finite False 2 0)), (''a'', Number (Finite False 1 0))]))
     = Inr ''{\<newline>    a: 1.000000\<newline>    b: 2.000000\<newline>}\<newline>'' \<and>
   toString (Object (map_of_entries
      [(''a'', Number (Finite False 1 0)), (''b'', Number (Finite False 2 0))]))
     = Inr ''{\<newline>    a: 1.000000\<newline>    b: 2.000000\<newline>}\<newline>''"
proof -
  have ba: "map_of_entries [(''b'', Number (Finite False 2 0)), (''a'', Number (Finite False 1 0))]
      = [(''a'', Number (Finite False 1 0)), (''b'', Number (Finite False 2 0))]"
    by (simp add: map_of_entries_def)
  have ab: "map_of_entries [(''a'', Number (Finite False 1 0)), (''b'', Number (Finite False 2 0))]
      = [(''a'', Number (Finite False 1 0)), (''b'', Number (Finite False 2 0))]"
    by (simp add: map_of_entries_def)
  have r: "toString (Object [(''a'', Number (Finite False 1 0)), (''b'', Number (Finite False 2 0))])
     = Inr ''{\<newline>    a: 1.000000\<newline>    b: 2.000000\<newline>}\<newline>''"
    using object_rendering [of "[(''b'', Number (Finite False 2 0)), (''a'', Number (Finite False 1 0))]"]
    unfolding ba
    by (auto simp: Cons_eq_map_conv to_string_small_integer digit_char_def
        simp del: to_string.simps)
  show ?thesis unfolding ba ab using r by simp
qed

end
